theory Spec2Isabelle
  imports Main "HOL-Library.Sublist"
begin

section \<open>JavaScript values, and objects used as dictionaries\<close>

text \<open>
  The program is TypeScript.  Three things of the language decide what its functions
  compute and are written out here: the values an action may return and that
  \<^verbatim>\<open>String(value)\<close> renders, the errors that are thrown, and the objects
  the code uses as dictionaries (\<^verbatim>\<open>Record<string, T>\<close>, always created by
  the literal \<^verbatim>\<open>{}\<close>).
\<close>

subsection \<open>Errors\<close>

text \<open>
  \<open>Error m\<close> is \<^verbatim>\<open>new Error(m)\<close> with a message the repository's code
  builds.  \<open>ParseError\<close> is the \<^verbatim>\<open>Error\<close> that \<^verbatim>\<open>tokenize\<close>
  throws for text the grammar rejects: its message quotes the parser generator's own
  message and location, which are not modelled.  \<open>TypeError\<close> is the error of the
  runtime when a value that is not a function is called, or when an object has no
  primitive value.
\<close>

datatype error = Error string | ParseError | TypeError

subsection \<open>Values\<close>

text \<open>
  The values covered: \<^verbatim>\<open>undefined\<close>, \<^verbatim>\<open>null\<close>, booleans, numbers with an
  integer value (\<open>JNum n\<close>; the safe integers are meant), strings, and plain objects:
  objects made by an object literal, given by their own data properties, none of
  which is a function.
\<close>

datatype jsval =
    JUndefined
  | JNull
  | JBool bool
  | JNum int
  | JStr string
  | JObj "(string \<times> jsval) list"

definition digit_char :: "nat \<Rightarrow> char" where
  "digit_char d = char_of (48 + d)"

fun digits :: "nat \<Rightarrow> string" where
  "digits n = (if n < 10 then [digit_char n] else digits (n div 10) @ [digit_char (n mod 10)])"

declare digits.simps [simp del]

text \<open>
  \<^verbatim>\<open>Number.prototype.toString\<close> on a safe integer, one below \<open>2^53\<close> in magnitude:
  the decimal digits, after a minus sign for a negative number.  Beyond the safe
  integers a number has other digits, and an exponent from \<open>10^21\<close> on; \<open>JNum n\<close> stands
  for no such number, and nothing is said of \<open>number_text\<close> there.
\<close>

definition number_text :: "int \<Rightarrow> string" where
  "number_text n = (if n < 0 then ''-'' @ digits (nat (- n)) else digits (nat n))"

text \<open>
  \<^verbatim>\<open>String(v)\<close>.  For an object it calls the \<^verbatim>\<open>toString\<close> it finds: the
  one inherited from \<^verbatim>\<open>Object.prototype\<close> answers \<^verbatim>\<open>[object Object]\<close>;
  an own property of that name hides it, is not callable (no value here is), and the
  conversion ends in a \<^verbatim>\<open>TypeError\<close>.
\<close>

fun js_String :: "jsval \<Rightarrow> error + string" where
  "js_String JUndefined = Inr ''undefined''"
| "js_String JNull = Inr ''null''"
| "js_String (JBool b) = Inr (if b then ''true'' else ''false'')"
| "js_String (JNum n) = Inr (number_text n)"
| "js_String (JStr s) = Inr s"
| "js_String (JObj fs) =
     (if ''toString'' \<in> fst ` set fs then Inl TypeError else Inr ''[object Object]'')"

subsection \<open>Dictionaries\<close>

text \<open>
  An object used as a dictionary is given by its own properties, in the order of their
  creation.  Being created by \<^verbatim>\<open>{}\<close>, it inherits from
  \<^verbatim>\<open>Object.prototype\<close>, whose members are listed here.
\<close>

type_synonym 'v dict = "(string \<times> 'v) list"

definition Object_prototype_keys :: "string list" where
  "Object_prototype_keys =
     [''constructor'', ''toString'', ''toLocaleString'', ''valueOf'', ''hasOwnProperty'',
      ''isPrototypeOf'', ''propertyIsEnumerable'', ''__defineGetter__'', ''__defineSetter__'',
      ''__lookupGetter__'', ''__lookupSetter__'', ''__proto__'']"

text \<open>
  Reading \<^verbatim>\<open>obj[k]\<close>: an own property wins; otherwise the member of
  \<^verbatim>\<open>Object.prototype\<close> of that name is found (a native function, or the
  prototype itself for \<^verbatim>\<open>__proto__\<close>); otherwise the result is
  \<^verbatim>\<open>undefined\<close>.
\<close>

datatype 'v property = Own 'v | Inherited string | Missing

definition js_get :: "'v dict \<Rightarrow> string \<Rightarrow> 'v property" where
  "js_get obj k =
     (case map_of obj k of
        Some v \<Rightarrow> Own v
      | None \<Rightarrow> if k \<in> set Object_prototype_keys then Inherited k else Missing)"

text \<open>
  Writing \<^verbatim>\<open>obj[k] = v\<close>: an own property is overwritten in place, a new one is
  added last.  The key \<^verbatim>\<open>__proto__\<close> is different: unless it is an own property
  already, the assignment reaches the setter inherited from \<^verbatim>\<open>Object.prototype\<close>
  and no own property is created.  This is the write of the two dictionaries the code
  fills and then reads by \<^verbatim>\<open>Object.entries\<close> only, \<^verbatim>\<open>namedArgs\<close> and
  \<^verbatim>\<open>resolvedNamedArgs\<close>: their own properties are all that is seen of them.  The
  binding context, which is read by name, has a write of its own below
  (\<open>context_set\<close>), which follows the prototype.
\<close>

fun overwrite :: "'v dict \<Rightarrow> string \<Rightarrow> 'v \<Rightarrow> 'v dict" where
  "overwrite [] k v = []"
| "overwrite ((k', v') # obj) k v =
     (if k' = k then (k, v) # obj else (k', v') # overwrite obj k v)"

definition js_set :: "'v dict \<Rightarrow> string \<Rightarrow> 'v \<Rightarrow> 'v dict" where
  "js_set obj k v =
     (if k \<in> fst ` set obj then overwrite obj k v
      else if k = ''__proto__'' then obj
      else obj @ [(k, v)])"

text \<open>
  \<^verbatim>\<open>Object.entries(obj)\<close>: the own properties whose key is an array index (the
  decimal text of an integer below \<open>2^32 - 1\<close>) in ascending order of the index, then
  the other properties in the order of their creation.
\<close>

definition is_digit :: "char \<Rightarrow> bool" where
  "is_digit c = (48 \<le> (of_char c :: nat) \<and> (of_char c :: nat) \<le> 57)"

definition decimal_value :: "string \<Rightarrow> nat" where
  "decimal_value k = foldl (\<lambda>a c. 10 * a + ((of_char c :: nat) - 48)) 0 k"

definition is_array_index :: "string \<Rightarrow> bool" where
  "is_array_index k =
     (k \<noteq> [] \<and> list_all is_digit k \<and> (k = ''0'' \<or> hd k \<noteq> CHR ''0'')
      \<and> decimal_value k < 2 ^ 32 - 1)"

definition js_entries :: "'v dict \<Rightarrow> (string \<times> 'v) list" where
  "js_entries obj =
     sort_key (\<lambda>(k, v). decimal_value k) (filter (\<lambda>(k, v). is_array_index k) obj)
     @ filter (\<lambda>(k, v). \<not> is_array_index k) obj"

text \<open>
  \<^verbatim>\<open>String\<close> of an inherited member: of \<^verbatim>\<open>Object.prototype\<close> itself for
  \<^verbatim>\<open>__proto__\<close>, of a native function otherwise.  The text of a native function
  is the engine's own: the form below is the one of V8, on one line; other engines
  break the lines differently.  No property below depends on it.
\<close>

definition native_text :: "string \<Rightarrow> string" where
  "native_text k =
     (if k = ''__proto__'' then ''[object Object]''
      else ''function '' @ (if k = ''constructor'' then ''Object'' else k)
           @ ''() { [native code] }'')"

subsection \<open>The binding context\<close>

text \<open>
  The binding context \<^verbatim>\<open>globalContext\<close> is an object that is read by name, so
  what it inherits counts.  It is given by its own properties and by its prototype: the
  \<^verbatim>\<open>Object.prototype\<close> it is created with, or what an assignment to
  \<^verbatim>\<open>__proto__\<close> has put in its place, \<^verbatim>\<open>null\<close> or a plain object (whose
  own prototype is \<^verbatim>\<open>Object.prototype\<close>).  Values are not changed once an
  action has returned them.
\<close>

datatype proto = ObjectPrototype | NoPrototype | PlainObject "jsval dict"

record binding_context =
  own_properties :: "jsval dict"
  prototype :: proto

text \<open>The object \<^verbatim>\<open>{}\<close>.\<close>

definition empty_context :: binding_context where
  "empty_context = \<lparr>own_properties = [], prototype = ObjectPrototype\<rparr>"

text \<open>
  What a read \<^verbatim>\<open>context[k]\<close> finds: a value, \<^verbatim>\<open>undefined\<close> where nothing
  is found, or a member of \<^verbatim>\<open>Object.prototype\<close>.  An own property wins, then a
  property of the plain object that is the prototype, then the members of
  \<^verbatim>\<open>Object.prototype\<close>, among which \<^verbatim>\<open>__proto__\<close> is a getter that
  answers the prototype of the context.
\<close>

datatype found = Found jsval | Native string

definition context_get :: "binding_context \<Rightarrow> string \<Rightarrow> found" where
  "context_get ctx k =
     (case map_of (own_properties ctx) k of
        Some v \<Rightarrow> Found v
      | None \<Rightarrow>
          (case prototype ctx of
             NoPrototype \<Rightarrow> Found JUndefined
           | ObjectPrototype \<Rightarrow>
               if k \<in> set Object_prototype_keys then Native k else Found JUndefined
           | PlainObject fs \<Rightarrow>
               (case map_of fs k of
                  Some v \<Rightarrow> Found v
                | None \<Rightarrow>
                    if k = ''__proto__'' then Found (JObj fs)
                    else if k \<in> set Object_prototype_keys then Native k
                    else Found JUndefined)))"

text \<open>
  Whether an assignment to \<^verbatim>\<open>__proto__\<close> on an object of this prototype, without
  an own property of that name, reaches the setter of \<^verbatim>\<open>Object.prototype\<close>: not
  when there is no prototype, and not when the plain object has a data property of that
  name, which is found first.
\<close>

fun reaches_setter :: "proto \<Rightarrow> bool" where
  "reaches_setter ObjectPrototype = True"
| "reaches_setter NoPrototype = False"
| "reaches_setter (PlainObject fs) = (''__proto__'' \<notin> fst ` set fs)"

text \<open>
  \<^verbatim>\<open>globalContext[k] = v\<close>.  An own property is overwritten in place.  Otherwise,
  for the key \<^verbatim>\<open>__proto__\<close> where the setter is reached, no property is created:
  an object or \<^verbatim>\<open>null\<close> becomes the prototype of the context, and any other value
  is dropped.  In every other case a new own property is added last.
\<close>

definition context_set :: "binding_context \<Rightarrow> string \<Rightarrow> jsval \<Rightarrow> binding_context" where
  "context_set ctx k v =
     (if k \<in> fst ` set (own_properties ctx)
      then ctx\<lparr>own_properties := overwrite (own_properties ctx) k v\<rparr>
      else if k = ''__proto__'' \<and> reaches_setter (prototype ctx)
      then (case v of
              JObj fs \<Rightarrow> ctx\<lparr>prototype := PlainObject fs\<rparr>
            | JNull \<Rightarrow> ctx\<lparr>prototype := NoPrototype\<rparr>
            | _ \<Rightarrow> ctx)
      else ctx\<lparr>own_properties := own_properties ctx @ [(k, v)]\<rparr>)"

section \<open>The data model (parser.ts)\<close>

text \<open>
  \<^verbatim>\<open>ArgumentValue = string | ReferencedVariable\<close>: a literal string, or a
  reference \<^verbatim>\<open>{ type: "variable-ref", name }\<close>.
\<close>

datatype ArgumentValue = Literal string | VariableRef string

record Command =
  name :: string
  positionalArgs :: "ArgumentValue list"
  namedArgs :: "ArgumentValue dict"

text \<open>
  \<^verbatim>\<open>Statement = VariableAssignment | ExecutableCommand\<close>, told apart by their
  \<^verbatim>\<open>type\<close>: \<^verbatim>\<open>"assignment"\<close> (with a \<^verbatim>\<open>variableName\<close>) or
  \<^verbatim>\<open>"command"\<close>.
\<close>

datatype Statement = AssignmentStmt string Command | CommandStmt Command

fun command :: "Statement \<Rightarrow> Command" where
  "command (AssignmentStmt x c) = c"
| "command (CommandStmt c) = c"

section \<open>Resolving arguments (resolveCommandArgs, parser.ts)\<close>

definition undefined_variable :: "string \<Rightarrow> error" where
  "undefined_variable n = Error (''Variable '' @ [CHR 0x27] @ n @ [CHR 0x27] @ '' is not defined'')"

text \<open>
  The inner function \<^verbatim>\<open>resolveArgument\<close>: the value is read by
  \<^verbatim>\<open>context[varRef.name]\<close>, refused when it is \<^verbatim>\<open>undefined\<close>, and given to
  \<^verbatim>\<open>String\<close> otherwise.  The last branch of the source (an argument that is
  neither a string nor a reference) cannot be reached by a value of the type.
\<close>

fun resolveArgument :: "binding_context \<Rightarrow> ArgumentValue \<Rightarrow> error + string" where
  "resolveArgument ctx (Literal s) = Inr s"
| "resolveArgument ctx (VariableRef n) =
     (case context_get ctx n of
        Found v \<Rightarrow> if v = JUndefined then Inl (undefined_variable n) else js_String v
      | Native k \<Rightarrow> Inr (native_text k))"

text \<open>\<^verbatim>\<open>positionalArgs.map(...)\<close>: in order, the first failure is thrown.\<close>

fun resolve_positional :: "binding_context \<Rightarrow> ArgumentValue list \<Rightarrow> error + string list" where
  "resolve_positional ctx [] = Inr []"
| "resolve_positional ctx (a # as) =
     (case resolveArgument ctx a of
        Inl e \<Rightarrow> Inl e
      | Inr s \<Rightarrow> (case resolve_positional ctx as of
                   Inl e \<Rightarrow> Inl e
                 | Inr ss \<Rightarrow> Inr (s # ss)))"

text \<open>The loop over \<^verbatim>\<open>Object.entries(command.namedArgs)\<close>, filling \<^verbatim>\<open>resolvedNamedArgs\<close>.\<close>

fun resolve_named ::
  "binding_context \<Rightarrow> (string \<times> ArgumentValue) list \<Rightarrow> string dict \<Rightarrow> error + string dict" where
  "resolve_named ctx [] resolved = Inr resolved"
| "resolve_named ctx ((k, a) # es) resolved =
     (case resolveArgument ctx a of
        Inl e \<Rightarrow> Inl e
      | Inr s \<Rightarrow> resolve_named ctx es (js_set resolved k s))"

definition resolveCommandArgs ::
  "binding_context \<Rightarrow> Command \<Rightarrow> error + (string list \<times> string dict)" where
  "resolveCommandArgs globalContext c =
     (case resolve_positional globalContext (positionalArgs c) of
        Inl e \<Rightarrow> Inl e
      | Inr resolvedPositionalArgs \<Rightarrow>
          (case resolve_named globalContext (js_entries (namedArgs c)) [] of
             Inl e \<Rightarrow> Inl e
           | Inr resolvedNamedArgs \<Rightarrow> Inr (resolvedPositionalArgs, resolvedNamedArgs)))"

text \<open>The argument values of a command, positional and named.\<close>

definition arguments :: "Command \<Rightarrow> ArgumentValue set" where
  "arguments c = set (positionalArgs c) \<union> snd ` set (namedArgs c)"

section \<open>The grammar (grammar.pegjs)\<close>

text \<open>
  The grammar is a parsing expression grammar: a choice \<open>a / b\<close> tries \<open>b\<close> only where
  \<open>a\<close> fails, from the same position; a repetition takes as many matches as it can and
  never gives one back.  Each rule is a function from the text that is left to its
  result and the text after it, \<open>None\<close> where the rule fails.  Text is a list of
  characters of eight bits.  The grammar names characters of ASCII only, and a character
  outside ASCII is to every rule what each of its bytes is here: no white space, not part
  of an identifier, part of an unquoted string.
\<close>

abbreviation (input) dquote :: char where "dquote \<equiv> CHR 0x22"
abbreviation (input) backslash :: char where "backslash \<equiv> CHR 0x5C"
abbreviation (input) newline :: char where "newline \<equiv> CHR 0x0A"
abbreviation (input) carriage_return :: char where "carriage_return \<equiv> CHR 0x0D"
abbreviation (input) tab :: char where "tab \<equiv> CHR 0x09"

definition in_range :: "char \<Rightarrow> char \<Rightarrow> char \<Rightarrow> bool" where
  "in_range lo hi c = ((of_char lo :: nat) \<le> of_char c \<and> (of_char c :: nat) \<le> of_char hi)"

text \<open>The class \<^verbatim>\<open>[a-zA-Z0-9_-]\<close>.\<close>

definition is_identifier_char :: "char \<Rightarrow> bool" where
  "is_identifier_char c =
     (in_range CHR ''a'' CHR ''z'' c \<or> in_range CHR ''A'' CHR ''Z'' c \<or> in_range CHR ''0'' CHR ''9'' c
      \<or> c = CHR ''_'' \<or> c = CHR ''-'')"

text \<open>The class \<^verbatim>\<open>[a-zA-Z0-9_:-]\<close>.\<close>

definition is_command_name_char :: "char \<Rightarrow> bool" where
  "is_command_name_char c =
     (in_range CHR ''a'' CHR ''z'' c \<or> in_range CHR ''A'' CHR ''Z'' c \<or> in_range CHR ''0'' CHR ''9'' c
      \<or> c = CHR ''_'' \<or> c = CHR '':'' \<or> c = CHR ''-'')"

text \<open>The class \<^verbatim>\<open>[^ \t\n\r:()$]\<close>.\<close>

definition is_unquoted_char :: "char \<Rightarrow> bool" where
  "is_unquoted_char c =
     (c \<noteq> CHR '' '' \<and> c \<noteq> tab \<and> c \<noteq> newline \<and> c \<noteq> carriage_return
      \<and> c \<noteq> CHR '':'' \<and> c \<noteq> CHR ''('' \<and> c \<noteq> CHR '')'' \<and> c \<noteq> CHR ''$'')"

text \<open>The class \<^verbatim>\<open>[ \t\n\r]\<close>.\<close>

definition is_space :: "char \<Rightarrow> bool" where
  "is_space c = (c = CHR '' '' \<or> c = tab \<or> c = newline \<or> c = carriage_return)"

text \<open>A class repeated once or more: \<^verbatim>\<open>chars:[...]+ { return chars.join(''); }\<close>.\<close>

definition many1 :: "(char \<Rightarrow> bool) \<Rightarrow> string \<Rightarrow> (string \<times> string) option" where
  "many1 p s = (if takeWhile p s = [] then None else Some (takeWhile p s, dropWhile p s))"

definition Identifier :: "string \<Rightarrow> (string \<times> string) option" where
  "Identifier = many1 is_identifier_char"

definition CommandName :: "string \<Rightarrow> (string \<times> string) option" where
  "CommandName = many1 is_command_name_char"

definition UnquotedString :: "string \<Rightarrow> (string \<times> string) option" where
  "UnquotedString = many1 is_unquoted_char"

text \<open>\<^verbatim>\<open>Comment = "//" [^\n\r]*\<close>; the result is the text after the comment.\<close>

fun Comment :: "string \<Rightarrow> string option" where
  "Comment (c # d # s) =
     (if c = CHR ''/'' \<and> d = CHR ''/''
      then Some (dropWhile (\<lambda>x. x \<noteq> newline \<and> x \<noteq> carriage_return) s)
      else None)"
| "Comment s = None"

lemma Comment_shorter: "Comment s = Some r \<Longrightarrow> length r < length s"
proof (cases s rule: Comment.cases)
  case (1 c d t)
  assume "Comment s = Some r"
  with 1 have "r = dropWhile (\<lambda>x. x \<noteq> newline \<and> x \<noteq> carriage_return) t"
    by (simp split: if_splits)
  then have "length r \<le> length t"
    by (simp add: length_dropWhile_le)
  with 1 show ?thesis by simp
qed simp_all

text \<open>
  The rule \<^verbatim>\<open>_ = ([ \t\n\r] / "\\" "\n" / Comment)*\<close>: white space, a backslash
  before a newline, comments.  It never fails; the result is the text after it.
\<close>

function ws :: "string \<Rightarrow> string" where
  "ws [] = []"
| "ws (c # s) =
     (if is_space c then ws s
      else if c = backslash \<and> s \<noteq> [] \<and> hd s = newline then ws (tl s)
      else (case Comment (c # s) of Some r \<Rightarrow> ws r | None \<Rightarrow> c # s))"
  by pat_completeness auto
termination
  by (relation "measure length") (auto dest: Comment_shorter simp: less_Suc_eq_le)

text \<open>
  \<^verbatim>\<open>QuotedString = '"' chars:([^"\\] / "\\" .)* '"'\<close>.  An element of
  \<^verbatim>\<open>chars\<close> is a character, or the array of a backslash and the character after
  it; the action keeps the second element of an array.
\<close>

datatype quoted_item = Plain char | Escaped char char

fun quoted_items :: "string \<Rightarrow> quoted_item list \<times> string" where
  "quoted_items [] = ([], [])"
| "quoted_items [c] = (if c \<noteq> dquote \<and> c \<noteq> backslash then ([Plain c], []) else ([], [c]))"
| "quoted_items (c # d # s) =
     (if c \<noteq> dquote \<and> c \<noteq> backslash
      then (case quoted_items (d # s) of (items, r) \<Rightarrow> (Plain c # items, r))
      else if c = backslash
      then (case quoted_items s of (items, r) \<Rightarrow> (Escaped c d # items, r))
      else ([], c # d # s))"

fun unescape :: "quoted_item \<Rightarrow> char" where
  "unescape (Plain c) = c"
| "unescape (Escaped b c) = c"

fun QuotedString :: "string \<Rightarrow> (string \<times> string) option" where
  "QuotedString [] = None"
| "QuotedString (q # s) =
     (if q = dquote
      then (case quoted_items s of
              (items, q' # r) \<Rightarrow> if q' = dquote then Some (map unescape items, r) else None
            | (items, []) \<Rightarrow> None)
      else None)"

text \<open>\<^verbatim>\<open>Literal = QuotedString / UnquotedString\<close>, a string.\<close>

definition Literal_rule :: "string \<Rightarrow> (ArgumentValue \<times> string) option" where
  "Literal_rule s =
     (case QuotedString s of
        Some (x, r) \<Rightarrow> Some (Literal x, r)
      | None \<Rightarrow> (case UnquotedString s of Some (x, r) \<Rightarrow> Some (Literal x, r) | None \<Rightarrow> None))"

text \<open>\<^verbatim>\<open>VariableReference = "$" name:Identifier\<close>.\<close>

fun VariableReference :: "string \<Rightarrow> (ArgumentValue \<times> string) option" where
  "VariableReference [] = None"
| "VariableReference (c # s) =
     (if c = CHR ''$''
      then (case Identifier s of Some (n, r) \<Rightarrow> Some (VariableRef n, r) | None \<Rightarrow> None)
      else None)"

text \<open>\<^verbatim>\<open>Value = VariableReference / Literal\<close>.\<close>

definition Value :: "string \<Rightarrow> (ArgumentValue \<times> string) option" where
  "Value s = (case VariableReference s of Some x \<Rightarrow> Some x | None \<Rightarrow> Literal_rule s)"

text \<open>
  An argument as the rules \<^verbatim>\<open>PositionalArgument\<close> and \<^verbatim>\<open>NamedArgument\<close>
  return it: \<^verbatim>\<open>{ type: 'positional', value }\<close> or
  \<^verbatim>\<open>{ type: 'named', name, value }\<close>.
\<close>

datatype Argument = Positional ArgumentValue | Named string ArgumentValue

definition PositionalArgument :: "string \<Rightarrow> (Argument \<times> string) option" where
  "PositionalArgument s = (case Value s of Some (v, r) \<Rightarrow> Some (Positional v, r) | None \<Rightarrow> None)"

text \<open>\<^verbatim>\<open>NamedArgument = name:Identifier ":" value:Value\<close>.\<close>

definition NamedArgument :: "string \<Rightarrow> (Argument \<times> string) option" where
  "NamedArgument s =
     (case Identifier s of
        Some (n, c # r) \<Rightarrow>
          if c = CHR '':''
          then (case Value r of Some (v, r') \<Rightarrow> Some (Named n v, r') | None \<Rightarrow> None)
          else None
      | _ \<Rightarrow> None)"

text \<open>\<^verbatim>\<open>Argument = NamedArgument / PositionalArgument\<close>.\<close>

definition Argument :: "string \<Rightarrow> (Argument \<times> string) option" where
  "Argument s = (case NamedArgument s of Some x \<Rightarrow> Some x | None \<Rightarrow> PositionalArgument s)"

text \<open>
  \<^verbatim>\<open>buildCommand\<close>: the arguments in order, a positional one pushed onto
  \<^verbatim>\<open>positionalArgs\<close>, a named one stored by
  \<^verbatim>\<open>command.namedArgs[arg.name] = arg.value\<close>.
\<close>

fun collect :: "Command \<Rightarrow> Argument \<Rightarrow> Command" where
  "collect c (Positional v) = c\<lparr>positionalArgs := positionalArgs c @ [v]\<rparr>"
| "collect c (Named k v) = c\<lparr>namedArgs := js_set (namedArgs c) k v\<rparr>"

definition buildCommand :: "string \<Rightarrow> Argument list \<Rightarrow> Command" where
  "buildCommand n args = foldl collect \<lparr>name = n, positionalArgs = [], namedArgs = []\<rparr> args"

subsection \<open>Every rule that succeeds leaves less text\<close>

lemma ws_length: "length (ws s) \<le> length s"
proof (induction s rule: ws.induct)
  case 1
  show ?case by simp
next
  case (2 c s)
  show ?case
  proof (cases "is_space c")
    case True
    with 2 show ?thesis by simp
  next
    case space: False
    show ?thesis
    proof (cases "c = backslash \<and> s \<noteq> [] \<and> hd s = newline")
      case True
      with 2 space have "length (ws (tl s)) \<le> length (tl s)" by simp
      with True space show ?thesis by simp
    next
      case False
      show ?thesis
      proof (cases "Comment (c # s)")
        case None
        with space False show ?thesis by auto
      next
        case (Some r)
        with 2 space False have "length (ws r) \<le> length r" by simp
        moreover from Some have "length r < length (c # s)" by (rule Comment_shorter)
        ultimately show ?thesis using space False Some by auto
      qed
    qed
  qed
qed

lemma many1_shorter: "many1 p s = Some (x, r) \<Longrightarrow> length r < length s"
proof -
  assume a: "many1 p s = Some (x, r)"
  then have "takeWhile p s \<noteq> []" and "r = dropWhile p s"
    by (auto simp: many1_def split: if_splits)
  moreover have "length (takeWhile p s) + length (dropWhile p s) = length s"
    by (metis length_append takeWhile_dropWhile_id)
  ultimately show ?thesis by (cases "takeWhile p s") auto
qed

lemma quoted_items_length: "quoted_items s = (items, r) \<Longrightarrow> length r \<le> length s"
  by (induction s arbitrary: items r rule: quoted_items.induct)
     (fastforce split: if_splits prod.splits)+

lemma QuotedString_shorter: "QuotedString s = Some (x, r) \<Longrightarrow> length r < length s"
  by (cases s) (auto split: if_splits prod.splits list.splits dest!: quoted_items_length)

lemma Value_shorter: "Value s = Some (v, r) \<Longrightarrow> length r < length s"
proof -
  assume a: "Value s = Some (v, r)"
  show ?thesis
  proof (cases "VariableReference s")
    case (Some x)
    with a show ?thesis
      by (cases s) (auto simp: Value_def Identifier_def split: if_splits option.splits
                         dest!: many1_shorter)
  next
    case None
    with a show ?thesis
      by (auto simp: Value_def Literal_rule_def UnquotedString_def split: option.splits
               dest: many1_shorter QuotedString_shorter)
  qed
qed

lemma Argument_shorter: "Argument s = Some (a, r) \<Longrightarrow> length r < length s"
proof -
  assume a: "Argument s = Some (a, r)"
  show ?thesis
  proof (cases "NamedArgument s")
    case None
    with a show ?thesis
      by (auto simp: Argument_def PositionalArgument_def split: option.splits dest: Value_shorter)
  next
    case (Some x)
    with a have "NamedArgument s = Some (a, r)" by (simp add: Argument_def)
    then obtain n c t where i: "Identifier s = Some (n, c # t)" and r: "\<exists>w. Value t = Some (w, r)"
      by (auto simp: NamedArgument_def split: option.splits list.splits if_splits)
    from i have "length (c # t) < length s" by (auto simp: Identifier_def dest: many1_shorter)
    moreover from r have "length r < length t" by (auto dest: Value_shorter)
    ultimately show ?thesis by simp
  qed
qed

subsection \<open>Commands and statements\<close>

text \<open>The repetition \<^verbatim>\<open>(_ Argument)*\<close> of the rule \<^verbatim>\<open>Command\<close>.\<close>

function Arguments :: "string \<Rightarrow> Argument list \<times> string" where
  "Arguments s =
     (case Argument (ws s) of
        None \<Rightarrow> ([], s)
      | Some (a, r) \<Rightarrow> (case Arguments r of (as, r') \<Rightarrow> (a # as, r')))"
  by pat_completeness auto
termination
proof (relation "measure length")
  fix s x a r
  assume "Argument (ws s) = Some x" and "(a, r) = x"
  then have "length r < length (ws s)" by (auto dest: Argument_shorter)
  with ws_length [of s] show "(r, s) \<in> measure length" by simp
qed simp

declare Arguments.simps [simp del]

text \<open>
  \<^verbatim>\<open>Command = name:CommandName args:(_ Argument)*\<close>, with the action
  \<^verbatim>\<open>buildCommand(name, args.map(arg => arg[1]))\<close>.
\<close>

definition Command :: "string \<Rightarrow> (Command \<times> string) option" where
  "Command s =
     (case CommandName s of
        None \<Rightarrow> None
      | Some (n, r) \<Rightarrow> (case Arguments r of (args, r') \<Rightarrow> Some (buildCommand n args, r')))"

text \<open>\<^verbatim>\<open>CommandExpression = "(" _ command:Command _ ")"\<close>.\<close>

fun CommandExpression :: "string \<Rightarrow> (Command \<times> string) option" where
  "CommandExpression [] = None"
| "CommandExpression (p # s) =
     (if p = CHR ''(''
      then (case Command (ws s) of
              None \<Rightarrow> None
            | Some (c, r) \<Rightarrow>
                (case ws r of
                   q # r' \<Rightarrow> if q = CHR '')'' then Some (c, r') else None
                 | [] \<Rightarrow> None))
      else None)"

text \<open>\<^verbatim>\<open>Assignment = variable:Identifier ":" _ command:CommandExpression _\<close>.\<close>

definition Assignment :: "string \<Rightarrow> (Statement \<times> string) option" where
  "Assignment s =
     (case Identifier s of
        Some (x, c # r) \<Rightarrow>
          if c = CHR '':''
          then (case CommandExpression (ws r) of
                  Some (cmd, r') \<Rightarrow> Some (AssignmentStmt x cmd, ws r')
                | None \<Rightarrow> None)
          else None
      | _ \<Rightarrow> None)"

text \<open>\<^verbatim>\<open>ExecutableCommand = command:CommandExpression _\<close>.\<close>

definition ExecutableCommand :: "string \<Rightarrow> (Statement \<times> string) option" where
  "ExecutableCommand s =
     (case CommandExpression s of
        Some (cmd, r) \<Rightarrow> Some (CommandStmt cmd, ws r)
      | None \<Rightarrow> None)"

text \<open>\<^verbatim>\<open>Statement = Assignment / ExecutableCommand\<close>.\<close>

definition Statement :: "string \<Rightarrow> (Statement \<times> string) option" where
  "Statement s = (case Assignment s of Some x \<Rightarrow> Some x | None \<Rightarrow> ExecutableCommand s)"

lemma Arguments_length: "Arguments s = (as, r) \<Longrightarrow> length r \<le> length s"
proof (induction s arbitrary: as r rule: Arguments.induct)
  case (1 s)
  show ?case
  proof (cases "Argument (ws s)")
    case None
    with 1(2) show ?thesis by (simp add: Arguments.simps)
  next
    case (Some x)
    obtain a t where x: "x = (a, t)" by (cases x)
    obtain bs t' where rec: "Arguments t = (bs, t')" by (cases "Arguments t")
    from 1(2) Some x rec have r: "r = t'" by (simp add: Arguments.simps)
    from 1(1) [OF Some x [symmetric] rec] have "length t' \<le> length t" .
    moreover from Some x have "length t < length (ws s)" by (auto dest: Argument_shorter)
    ultimately show ?thesis using r ws_length [of s] by simp
  qed
qed

lemma Command_shorter: "Command s = Some (c, r) \<Longrightarrow> length r < length s"
  by (auto simp: Command_def CommandName_def split: option.splits prod.splits
           dest!: many1_shorter Arguments_length)

lemma CommandExpression_shorter: "CommandExpression s = Some (c, r) \<Longrightarrow> length r < length s"
proof (cases s)
  case Nil
  assume "CommandExpression s = Some (c, r)"
  with Nil show ?thesis by simp
next
  case (Cons p t)
  assume "CommandExpression s = Some (c, r)"
  with Cons obtain u where c: "Command (ws t) = Some (c, u)" and w: "ws u = CHR '')'' # r"
    by (auto split: if_splits option.splits list.splits)
  from c have "length u < length (ws t)" by (rule Command_shorter)
  moreover from w ws_length [of u] have "length r < length u" by simp
  ultimately show ?thesis using Cons ws_length [of t] by simp
qed

lemma Statement_shorter: "Statement s = Some (st, r) \<Longrightarrow> length r < length s"
proof -
  assume a: "Statement s = Some (st, r)"
  show ?thesis
  proof (cases "Assignment s")
    case None
    with a obtain cmd u where "CommandExpression s = Some (cmd, u)" and "r = ws u"
      by (auto simp: Statement_def ExecutableCommand_def split: option.splits)
    then show ?thesis using ws_length [of u] by (auto dest: CommandExpression_shorter)
  next
    case (Some x)
    with a have "Assignment s = Some (st, r)" by (simp add: Statement_def)
    then obtain x c t cmd u where i: "Identifier s = Some (x, c # t)"
        and e: "CommandExpression (ws t) = Some (cmd, u)" and r: "r = ws u"
      by (auto simp: Assignment_def split: option.splits list.splits if_splits)
    from i have "length (c # t) < length s" by (auto simp: Identifier_def dest: many1_shorter)
    moreover from e have "length u < length (ws t)" by (rule CommandExpression_shorter)
    ultimately show ?thesis using r ws_length [of u] ws_length [of t] by simp
  qed
qed

text \<open>The repetition \<^verbatim>\<open>Statement*\<close> of the rule \<^verbatim>\<open>Program\<close>.\<close>

function Statements :: "string \<Rightarrow> Statement list \<times> string" where
  "Statements s =
     (case Statement s of
        None \<Rightarrow> ([], s)
      | Some (st, r) \<Rightarrow> (case Statements r of (sts, r') \<Rightarrow> (st # sts, r')))"
  by pat_completeness auto
termination
proof (relation "measure length")
  fix s x st r
  assume "Statement s = Some x" and "(st, r) = x"
  then show "(r, s) \<in> measure length" by (auto dest: Statement_shorter)
qed simp

declare Statements.simps [simp del]

text \<open>\<^verbatim>\<open>Program = _ statements:Statement* _ { return statements; }\<close>.\<close>

definition Program :: "string \<Rightarrow> Statement list \<times> string" where
  "Program s = (case Statements (ws s) of (statements, r) \<Rightarrow> (statements, ws r))"

section \<open>Parsing a command line (tokenize, parser.ts)\<close>

text \<open>
  The empty string gives no statement without the parser being asked.  Otherwise
  \<^verbatim>\<open>p.parse(args)\<close> answers the statements of \<^verbatim>\<open>Program\<close> when the rule has
  taken the whole text, and throws when text is left.
\<close>

definition tokenize :: "string \<Rightarrow> error + Statement list" where
  "tokenize args =
     (if args = [] then Inr []
      else (case Program args of
              (statements, []) \<Rightarrow> Inr statements
            | (statements, c # r) \<Rightarrow> Inl ParseError))"

section \<open>Validating and executing statements (runner.ts)\<close>

text \<open>
  A command definition.  Its \<^verbatim>\<open>action\<close> is a function of the host: it is given
  the resolved arguments, may read and change the state \<open>'w\<close> of the host, and returns a
  value or throws.
\<close>

record 'w CommandDefinition =
  action :: "string list \<Rightarrow> string dict \<Rightarrow> 'w \<Rightarrow> (error + jsval) \<times> 'w"
  description :: "string option"
  argsDescription :: "string list option"
  returns :: "string option"

definition unknown_command :: "string \<Rightarrow> string" where
  "unknown_command n = ''Unknown command: '' @ [CHR 0x27] @ n @ [CHR 0x27]"

definition must_be_assigned :: "string \<Rightarrow> string \<Rightarrow> string" where
  "must_be_assigned n r =
     ''Command '' @ [CHR 0x27] @ n @ [CHR 0x27] @ '' returns a value and must be assigned to a variable''
     @ [newline] @ ''  Expected: varname:('' @ n @ '' ...) or _:('' @ n
     @ '' ...) to ignore the return value''
     @ [newline] @ ''  Returns: '' @ r"

text \<open>
  The body of the loop of \<^verbatim>\<open>validateStatements\<close>: the errors one statement adds.
  \<^verbatim>\<open>commandMap[stmt.command.name]\<close> is a property read.  What it finds is tested
  by \<^verbatim>\<open>!command\<close>, which holds of \<^verbatim>\<open>undefined\<close> only; an inherited member is
  an object without a \<^verbatim>\<open>returns\<close>.  \<^verbatim>\<open>command.returns\<close> counts when it is a
  string that is not empty.
\<close>

fun statement_errors :: "'w CommandDefinition dict \<Rightarrow> Statement \<Rightarrow> string list" where
  "statement_errors commandMap stmt =
     (case js_get commandMap (name (command stmt)) of
        Missing \<Rightarrow> [unknown_command (name (command stmt))]
      | Inherited k \<Rightarrow> []
      | Own d \<Rightarrow>
          (case (returns d, stmt) of
             (Some r, CommandStmt c) \<Rightarrow>
               if r \<noteq> [] then [must_be_assigned (name (command stmt)) r] else []
           | _ \<Rightarrow> []))"

definition validateStatements :: "Statement list \<Rightarrow> 'w CommandDefinition dict \<Rightarrow> string list" where
  "validateStatements statements commandMap = concat (map (statement_errors commandMap) statements)"

text \<open>
  An invocation of an action: the name of the command and the arguments it was given.
  The executor is followed by the state of the host and by the list of the invocations
  made so far.  Logging, the working directory and the execution times are left out.
\<close>

type_synonym invocation = "string \<times> string list \<times> string dict"

text \<open>
  The loop of \<^verbatim>\<open>executeStatements\<close>, from a statement on.  The arguments are
  resolved first; then \<^verbatim>\<open>command.action\<close> is called, which throws a
  \<^verbatim>\<open>TypeError\<close> when \<^verbatim>\<open>command\<close> is not a registered definition; an
  assignment stores the result by \<^verbatim>\<open>globalContext[stmt.variableName] = result\<close>.
  Whatever is thrown ends the loop and is what the caller gets.
\<close>

fun execute_from ::
  "'w CommandDefinition dict \<Rightarrow> Statement list \<Rightarrow> binding_context \<Rightarrow> 'w \<Rightarrow> invocation list
   \<Rightarrow> (error + binding_context) \<times> 'w \<times> invocation list" where
  "execute_from commandMap [] globalContext w calls = (Inr globalContext, w, calls)"
| "execute_from commandMap (stmt # statements) globalContext w calls =
     (case resolveCommandArgs globalContext (command stmt) of
        Inl e \<Rightarrow> (Inl e, w, calls)
      | Inr (resolvedPositionalArgs, resolvedNamedArgs) \<Rightarrow>
          (case js_get commandMap (name (command stmt)) of
             Own d \<Rightarrow>
               (case action d resolvedPositionalArgs resolvedNamedArgs w of
                  (Inl e, w') \<Rightarrow>
                    (Inl e, w',
                     calls @ [(name (command stmt), resolvedPositionalArgs, resolvedNamedArgs)])
                | (Inr result, w') \<Rightarrow>
                    execute_from commandMap statements
                      (case stmt of
                         AssignmentStmt variableName c \<Rightarrow> context_set globalContext variableName result
                       | CommandStmt c \<Rightarrow> globalContext)
                      w'
                      (calls @ [(name (command stmt), resolvedPositionalArgs, resolvedNamedArgs)]))
           | _ \<Rightarrow> (Inl TypeError, w, calls)))"

definition executeStatements ::
  "Statement list \<Rightarrow> 'w CommandDefinition dict \<Rightarrow> 'w
   \<Rightarrow> (error + binding_context) \<times> 'w \<times> invocation list" where
  "executeStatements statements commandMap w =
     execute_from commandMap statements empty_context w []"

section \<open>Running a command line (run, index.ts)\<close>

text \<open>\<^verbatim>\<open>Array.prototype.join\<close>.\<close>

fun join :: "string \<Rightarrow> string list \<Rightarrow> string" where
  "join sep [] = []"
| "join sep [x] = x"
| "join sep (x # y # xs) = x @ sep @ join sep (y # xs)"

text \<open>
  \<^verbatim>\<open>run\<close>: help when asked for, with \<^verbatim>\<open>{}\<close> as the result; otherwise
  parse, validate all statements, and execute them only when no error was found.  The
  result is the final \<^verbatim>\<open>globalContext\<close>.
\<close>

definition run ::
  "'w CommandDefinition dict \<Rightarrow> string list \<Rightarrow> 'w
   \<Rightarrow> (error + binding_context) \<times> 'w \<times> invocation list" where
  "run commandMap args w =
     (if args = [] \<or> ''--help'' \<in> set args \<or> ''-h'' \<in> set args
      then (Inr empty_context, w, [])
      else (case tokenize (join '' '' args) of
              Inl e \<Rightarrow> (Inl e, w, [])
            | Inr statements \<Rightarrow>
                (let errors = validateStatements statements commandMap in
                 if errors \<noteq> [] then (Inl (Error (''Validation failed: '' @ join ''; '' errors)), w, [])
                 else executeStatements statements commandMap w)))"

section \<open>Inputs and examples\<close>

text \<open>
  The inputs the properties below are stated for.  A string is plain when it has neither
  a double quote nor a backslash.
\<close>

definition plain :: "string \<Rightarrow> bool" where
  "plain s = list_all (\<lambda>c. c \<noteq> dquote \<and> c \<noteq> backslash) s"

text \<open>
  A piece of blank input: one white space character, a line continuation, or a comment
  (two slashes and the rest of a line, without the end of the line).
\<close>

definition blank_piece :: "string \<Rightarrow> bool" where
  "blank_piece p =
     ((length p = 1 \<and> is_space (hd p))
      \<or> p = [backslash, newline]
      \<or> (take 2 p = ''//'' \<and> newline \<notin> set p \<and> carriage_return \<notin> set p))"

text \<open>The values a list of parsed arguments gives to the key \<open>k\<close>, in source order.\<close>

fun named_values :: "string \<Rightarrow> Argument list \<Rightarrow> ArgumentValue list" where
  "named_values k [] = []"
| "named_values k (Positional v # args) = named_values k args"
| "named_values k (Named k' v # args) = (if k' = k then v # named_values k args else named_values k args)"

text \<open>
  Command definitions as the tests register them: an action that returns a value
  whatever its arguments (\<^verbatim>\<open>action: async () => v\<close>), with or without a
  \<^verbatim>\<open>returns\<close> annotation; an action that throws; and an action that returns its
  named argument \<^verbatim>\<open>val\<close> (\<^verbatim>\<open>async (_, named) => named.val\<close>).
\<close>

definition returning :: "jsval \<Rightarrow> string option \<Rightarrow> 'w CommandDefinition" where
  "returning v r =
     \<lparr>action = (\<lambda>positionalArgs namedArgs w. (Inr v, w)), description = None,
      argsDescription = None, returns = r\<rparr>"

definition throwing :: "error \<Rightarrow> 'w CommandDefinition" where
  "throwing e =
     \<lparr>action = (\<lambda>positionalArgs namedArgs w. (Inl e, w)), description = None,
      argsDescription = None, returns = None\<rparr>"

definition use_value :: "'w CommandDefinition" where
  "use_value =
     \<lparr>action = (\<lambda>positionalArgs namedArgs w.
        (Inr (case map_of namedArgs ''val'' of Some v \<Rightarrow> JStr v | None \<Rightarrow> JUndefined), w)),
      description = None, argsDescription = None, returns = None\<rparr>"

text \<open>The commands and the registry of the examples.\<close>

definition deploy :: Command where
  "deploy = \<lparr>name = ''deploy'', positionalArgs = [Literal ''prod''], namedArgs = []\<rparr>"

definition ping :: Command where
  "ping = \<lparr>name = ''ping'', positionalArgs = [], namedArgs = []\<rparr>"


definition registry :: "unit CommandDefinition dict" where
  "registry = [(''ping'', returning JUndefined None), (''deploy'', throwing (Error ''boom''))]"

section \<open>Properties of dictionaries\<close>

lemma overwrite_keys: "map fst (overwrite obj k v) = map fst obj"
  by (induction obj) auto

lemma map_of_overwrite:
  "map_of (overwrite obj k v) k' = (if k' = k \<and> k \<in> fst ` set obj then Some v else map_of obj k')"
  by (induction obj) force+

lemma js_set_keys:
  "fst ` set (js_set obj k v) =
     (if k = ''__proto__'' \<and> k \<notin> fst ` set obj then fst ` set obj else insert k (fst ` set obj))"
proof -
  have "fst ` set (overwrite obj k v) = fst ` set obj"
    using overwrite_keys [of obj k v] by (metis set_map)
  then show ?thesis by (auto simp: js_set_def)
qed

lemma js_set_distinct: "distinct (map fst obj) \<Longrightarrow> distinct (map fst (js_set obj k v))"
  by (auto simp: js_set_def overwrite_keys)

lemma map_of_js_set:
  "map_of (js_set obj k v) k' =
     (if k' = k \<and> (k \<noteq> ''__proto__'' \<or> k \<in> fst ` set obj) then Some v else map_of obj k')"
proof (cases "k \<in> fst ` set obj")
  case True
  then show ?thesis by (simp add: js_set_def map_of_overwrite)
next
  case False
  then have "map_of obj k = None" by (simp add: map_of_eq_None_iff)
  with False show ?thesis by (auto simp: js_set_def map_add_def split: option.splits)
qed

lemma js_entries_set: "set (js_entries obj) = set obj"
  by (auto simp: js_entries_def)

lemma js_entries_distinct:
  "distinct (map fst obj) \<Longrightarrow> distinct (map fst (js_entries obj))"
proof -
  assume d: "distinct (map fst obj)"
  let ?ix = "filter (\<lambda>(k, v). is_array_index k) obj"
  let ?rest = "filter (\<lambda>(k, v). \<not> is_array_index k) obj"
  let ?sorted = "sort_key (\<lambda>(k, v). decimal_value k) ?ix"
  from d have "distinct (map fst ?ix)" and r: "distinct (map fst ?rest)"
    by (simp_all add: distinct_map_filter)
  then have "distinct (map fst ?sorted)"
    by (simp add: distinct_map)
  moreover have "fst ` set ?sorted \<inter> fst ` set ?rest = {}"
    by auto
  ultimately show ?thesis using r by (simp add: js_entries_def)
qed

section \<open>Properties of the resolver\<close>

text \<open>The error for an undefined variable tells which variable it is.\<close>

lemma undefined_variable_identifies: "(undefined_variable n = undefined_variable m) = (n = m)"
  by (simp add: undefined_variable_def)

lemma js_String_not_undefined_variable: "js_String v \<noteq> Inl (undefined_variable n)"
  by (cases v) (auto simp: undefined_variable_def)

lemma resolve_positional_Inl:
  "resolve_positional ctx as = Inl e \<Longrightarrow> \<exists>a\<in>set as. resolveArgument ctx a = Inl e"
  by (induction as) (auto split: sum.splits)

lemma resolve_positional_Inr:
  "resolve_positional ctx as = Inr ss \<longleftrightarrow> list_all2 (\<lambda>a s. resolveArgument ctx a = Inr s) as ss"
proof (induction as arbitrary: ss)
  case Nil
  show ?case by auto
next
  case (Cons a as)
  show ?case
    by (cases "resolveArgument ctx a"; cases "resolve_positional ctx as")
       (auto simp: list_all2_Cons1 Cons.IH [symmetric])
qed

lemma resolve_named_Inl:
  "resolve_named ctx es acc = Inl e \<Longrightarrow> \<exists>a\<in>snd ` set es. resolveArgument ctx a = Inl e"
  by (induction es arbitrary: acc) (auto split: sum.splits)

lemma resolve_named_total:
  "\<forall>a\<in>snd ` set es. \<exists>s. resolveArgument ctx a = Inr s \<Longrightarrow> \<exists>ns. resolve_named ctx es acc = Inr ns"
  by (induction es arbitrary: acc) (auto split: sum.splits)

lemma resolve_named_keeps:
  "resolve_named ctx es acc = Inr ns \<Longrightarrow> k \<notin> fst ` set es \<Longrightarrow> map_of ns k = map_of acc k"
proof (induction es arbitrary: acc)
  case Nil
  then show ?case by simp
next
  case (Cons x es)
  obtain k' a where x: "x = (k', a)" by (cases x)
  from Cons.prems x obtain s where s: "resolveArgument ctx a = Inr s"
      and rest: "resolve_named ctx es (js_set acc k' s) = Inr ns"
    by (auto split: sum.splits)
  from Cons.prems x have "k \<noteq> k'" and "k \<notin> fst ` set es" by auto
  with Cons.IH [OF rest] show ?case by (simp add: map_of_js_set)
qed

lemma resolve_named_binds:
  "resolve_named ctx es acc = Inr ns \<Longrightarrow> distinct (map fst es) \<Longrightarrow> (k, a) \<in> set es \<Longrightarrow>
   k \<noteq> ''__proto__'' \<Longrightarrow> \<exists>s. resolveArgument ctx a = Inr s \<and> map_of ns k = Some s"
proof (induction es arbitrary: acc)
  case Nil
  then show ?case by simp
next
  case (Cons x es)
  obtain k' a' where x: "x = (k', a')" by (cases x)
  from Cons.prems(1) x obtain s where s: "resolveArgument ctx a' = Inr s"
      and rest: "resolve_named ctx es (js_set acc k' s) = Inr ns"
    by (auto split: sum.splits)
  show ?case
  proof (cases "(k, a) = (k', a')")
    case True
    with Cons.prems(2) x have "k \<notin> fst ` set es" by auto
    from resolve_named_keeps [OF rest this] True Cons.prems(4) s show ?thesis
      by (simp add: map_of_js_set)
  next
    case False
    with Cons.prems(3) x have "(k, a) \<in> set es" by auto
    moreover from Cons.prems(2) have "distinct (map fst es)" by simp
    ultimately show ?thesis using Cons.IH [OF rest] Cons.prems(4) by blast
  qed
qed

lemma resolveCommandArgs_Inl:
  "resolveCommandArgs ctx c = Inl e \<Longrightarrow> \<exists>a\<in>arguments c. resolveArgument ctx a = Inl e"
proof (cases "resolve_positional ctx (positionalArgs c)")
  case (Inl e')
  assume "resolveCommandArgs ctx c = Inl e"
  with Inl have "e' = e" by (simp add: resolveCommandArgs_def)
  with resolve_positional_Inl [OF Inl] show ?thesis by (auto simp: arguments_def)
next
  case (Inr ps)
  assume "resolveCommandArgs ctx c = Inl e"
  with Inr have "resolve_named ctx (js_entries (namedArgs c)) [] = Inl e"
    by (simp add: resolveCommandArgs_def split: sum.splits)
  from resolve_named_Inl [OF this] show ?thesis by (auto simp: arguments_def js_entries_set)
qed

lemma resolveCommandArgs_total:
  assumes "\<forall>a\<in>arguments c. \<exists>s. resolveArgument ctx a = Inr s"
  shows "\<exists>r. resolveCommandArgs ctx c = Inr r"
proof -
  have "\<exists>ps. resolve_positional ctx (positionalArgs c) = Inr ps"
  proof (cases "resolve_positional ctx (positionalArgs c)")
    case (Inl e)
    from resolve_positional_Inl [OF this] obtain a
      where "a \<in> set (positionalArgs c)" and "resolveArgument ctx a = Inl e" by blast
    moreover from this(1) assms obtain s where "resolveArgument ctx a = Inr s"
      unfolding arguments_def by blast
    ultimately show ?thesis by simp
  qed simp
  moreover have "\<exists>ns. resolve_named ctx (js_entries (namedArgs c)) [] = Inr ns"
    using assms by (intro resolve_named_total) (auto simp: arguments_def js_entries_set)
  ultimately show ?thesis by (auto simp: resolveCommandArgs_def)
qed

lemma resolveCommandArgs_positional:
  "resolveCommandArgs ctx c = Inr (ps, ns) \<Longrightarrow>
   list_all2 (\<lambda>a s. resolveArgument ctx a = Inr s) (positionalArgs c) ps"
  by (auto simp: resolveCommandArgs_def resolve_positional_Inr split: sum.splits)

lemma resolveCommandArgs_named:
  assumes "resolveCommandArgs ctx c = Inr (ps, ns)" and "distinct (map fst (namedArgs c))"
    and "(k, a) \<in> set (namedArgs c)" and "k \<noteq> ''__proto__''"
  shows "\<exists>s. resolveArgument ctx a = Inr s \<and> map_of ns k = Some s"
proof -
  from assms(1) have "resolve_named ctx (js_entries (namedArgs c)) [] = Inr ns"
    by (auto simp: resolveCommandArgs_def split: sum.splits)
  from resolve_named_binds [OF this js_entries_distinct [OF assms(2)] _ assms(4), of a] assms(3)
  show ?thesis by (simp add: js_entries_set)
qed

lemma resolve_named_Inr_all:
  "resolve_named ctx es acc = Inr ns \<Longrightarrow> a \<in> snd ` set es \<Longrightarrow> \<exists>s. resolveArgument ctx a = Inr s"
  by (induction es arbitrary: acc) (force split: sum.splits)+

lemma resolveCommandArgs_Inr_all:
  assumes "resolveCommandArgs ctx c = Inr r" and "a \<in> arguments c"
  shows "\<exists>s. resolveArgument ctx a = Inr s"
proof -
  obtain ps ns where r: "r = (ps, ns)" by (cases r)
  from assms(2) consider "a \<in> set (positionalArgs c)" | "a \<in> snd ` set (namedArgs c)"
    by (auto simp: arguments_def)
  then show ?thesis
  proof cases
    case 1
    from resolveCommandArgs_positional [OF assms(1) [unfolded r]] 1 show ?thesis
      by (auto simp: list_all2_conv_all_nth in_set_conv_nth)
  next
    case 2
    from assms(1) r have "resolve_named ctx (js_entries (namedArgs c)) [] = Inr ns"
      by (auto simp: resolveCommandArgs_def split: sum.splits)
    from resolve_named_Inr_all [OF this, of a] 2 show ?thesis by (simp add: js_entries_set)
  qed
qed

text \<open>
  For every context: a reference fails with the error for an undefined variable exactly
  when the read of its name gives \<^verbatim>\<open>undefined\<close>.
\<close>

lemma resolveArgument_fails_iff_undefined:
  "(resolveArgument ctx (VariableRef n) = Inl (undefined_variable n))
   = (context_get ctx n = Found JUndefined)"
  by (cases "context_get ctx n") (auto simp: js_String_not_undefined_variable)

lemma context_get_original:
  assumes "prototype ctx = ObjectPrototype" and "n \<notin> set Object_prototype_keys"
  shows "context_get ctx n
         = (case map_of (own_properties ctx) n of Some v \<Rightarrow> Found v | None \<Rightarrow> Found JUndefined)"
  using assms by (simp add: context_get_def split: option.splits)

lemma resolveArgument_undefined_iff:
  assumes "prototype ctx = ObjectPrototype" and "n \<notin> set Object_prototype_keys"
  shows "(resolveArgument ctx (VariableRef n) = Inl (undefined_variable n))
         = (map_of (own_properties ctx) n = None \<or> map_of (own_properties ctx) n = Some JUndefined)"
  unfolding resolveArgument_fails_iff_undefined context_get_original [OF assms]
  by (auto split: option.splits)

lemma resolveArgument_bound:
  "map_of (own_properties ctx) n = Some v \<Longrightarrow> v \<noteq> JUndefined \<Longrightarrow>
   resolveArgument ctx (VariableRef n) = js_String v"
  by (simp add: context_get_def)

text \<open>
  Claim C1, as the code has it.  A literal resolves to itself.  In a context whose
  prototype is the \<^verbatim>\<open>Object.prototype\<close> it was created with, a reference to a
  name that is not a member of \<^verbatim>\<open>Object.prototype\<close> fails with the error
  \<^verbatim>\<open>Variable 'name' is not defined\<close> exactly when the name is absent from the
  bindings or bound to \<^verbatim>\<open>undefined\<close>; in every context, a name bound to any
  other value resolves to \<^verbatim>\<open>String\<close> of that value.  For a command: an error of
  \<^verbatim>\<open>resolveCommandArgs\<close> is the error of one of its arguments; it succeeds exactly
  when every argument resolves; the positional results are the resolutions of the
  positional arguments in order, and a named argument is found resolved under its key.
\<close>

theorem resolve_by_lookup:
  "resolveArgument ctx (Literal s) = Inr s
   \<and> (prototype ctx = ObjectPrototype \<and> n \<notin> set Object_prototype_keys \<longrightarrow>
        (resolveArgument ctx (VariableRef n) = Inl (undefined_variable n))
        = (map_of (own_properties ctx) n = None \<or> map_of (own_properties ctx) n = Some JUndefined))
   \<and> (map_of (own_properties ctx) n = Some v \<and> v \<noteq> JUndefined \<longrightarrow>
        resolveArgument ctx (VariableRef n) = js_String v)
   \<and> (resolveCommandArgs ctx c = Inl e \<longrightarrow> (\<exists>a\<in>arguments c. resolveArgument ctx a = Inl e))
   \<and> ((\<exists>r. resolveCommandArgs ctx c = Inr r)
        = (\<forall>a\<in>arguments c. \<exists>s. resolveArgument ctx a = Inr s))
   \<and> (resolveCommandArgs ctx c = Inr (ps, ns) \<longrightarrow>
        list_all2 (\<lambda>a s. resolveArgument ctx a = Inr s) (positionalArgs c) ps)
   \<and> (resolveCommandArgs ctx c = Inr (ps, ns) \<and> distinct (map fst (namedArgs c))
        \<and> (k, a) \<in> set (namedArgs c) \<and> k \<noteq> ''__proto__'' \<longrightarrow>
        (\<exists>s. resolveArgument ctx a = Inr s \<and> map_of ns k = Some s))"
proof (intro conjI impI)
  show "resolveArgument ctx (Literal s) = Inr s" by simp
next
  assume "prototype ctx = ObjectPrototype \<and> n \<notin> set Object_prototype_keys"
  then show "(resolveArgument ctx (VariableRef n) = Inl (undefined_variable n))
        = (map_of (own_properties ctx) n = None \<or> map_of (own_properties ctx) n = Some JUndefined)"
    using resolveArgument_undefined_iff [of ctx n] by blast
next
  assume "map_of (own_properties ctx) n = Some v \<and> v \<noteq> JUndefined"
  then show "resolveArgument ctx (VariableRef n) = js_String v"
    using resolveArgument_bound [of ctx n v] by blast
next
  assume "resolveCommandArgs ctx c = Inl e"
  then show "\<exists>a\<in>arguments c. resolveArgument ctx a = Inl e"
    by (rule resolveCommandArgs_Inl)
next
  show "(\<exists>r. resolveCommandArgs ctx c = Inr r)
        = (\<forall>a\<in>arguments c. \<exists>s. resolveArgument ctx a = Inr s)"
    using resolveCommandArgs_total [of c ctx] resolveCommandArgs_Inr_all [of ctx c] by blast
next
  assume "resolveCommandArgs ctx c = Inr (ps, ns)"
  then show "list_all2 (\<lambda>a s. resolveArgument ctx a = Inr s) (positionalArgs c) ps"
    by (rule resolveCommandArgs_positional)
next
  assume "resolveCommandArgs ctx c = Inr (ps, ns) \<and> distinct (map fst (namedArgs c))
        \<and> (k, a) \<in> set (namedArgs c) \<and> k \<noteq> ''__proto__''"
  then show "\<exists>s. resolveArgument ctx a = Inr s \<and> map_of ns k = Some s"
    using resolveCommandArgs_named [of ctx c ps ns k a] by blast
qed

text \<open>
  A name that \<^verbatim>\<open>Object.prototype\<close> has is found by \<^verbatim>\<open>context[name]\<close> in
  bindings that lack it, and the reference resolves.
\<close>

lemma inherited_name_resolves:
  "resolveArgument empty_context (VariableRef ''constructor'') = Inr (native_text ''constructor'')"
  by (simp add: context_get_def empty_context_def Object_prototype_keys_def)

lemma is_array_index_config: "\<not> is_array_index ''config''"
  by (simp add: is_array_index_def is_digit_def)

theorem resolve_by_lookup_witness:
  "resolveArgument \<lparr>own_properties = [(''cfg'', JStr ''/path'')], prototype = ObjectPrototype\<rparr>
       (Literal ''a'') = Inr ''a''
   \<and> resolveArgument \<lparr>own_properties = [(''cfg'', JStr ''/path'')], prototype = ObjectPrototype\<rparr>
       (VariableRef ''missing'') = Inl (undefined_variable ''missing'')
   \<and> resolveArgument \<lparr>own_properties = [(''cfg'', JStr ''/path'')], prototype = ObjectPrototype\<rparr>
       (VariableRef ''cfg'') = Inr ''/path''
   \<and> resolveCommandArgs \<lparr>own_properties = [(''cfg'', JStr ''/path'')], prototype = ObjectPrototype\<rparr>
        \<lparr>name = ''deploy'', positionalArgs = [Literal ''a''], namedArgs = [(''config'', VariableRef ''cfg'')]\<rparr>
       = Inr ([''a''], [(''config'', ''/path'')])"
  using resolve_by_lookup
      [of "\<lparr>own_properties = [(''cfg'', JStr ''/path'')], prototype = ObjectPrototype\<rparr>"
      "''a''" "''missing''" "JStr ''/path''"
      "\<lparr>name = ''deploy'', positionalArgs = [Literal ''a''], namedArgs = [(''config'', VariableRef ''cfg'')]\<rparr>"
      "Error []" "[''a'']" "[(''config'', ''/path'')]" "''config''" "VariableRef ''cfg''"]
    resolve_by_lookup
      [of "\<lparr>own_properties = [(''cfg'', JStr ''/path'')], prototype = ObjectPrototype\<rparr>"
      "''a''" "''cfg''" "JStr ''/path''"
      "\<lparr>name = ''deploy'', positionalArgs = [Literal ''a''], namedArgs = [(''config'', VariableRef ''cfg'')]\<rparr>"
      "Error []" "[''a'']" "[(''config'', ''/path'')]" "''config''" "VariableRef ''cfg''"]
  by (simp add: Object_prototype_keys_def resolveCommandArgs_def js_entries_def is_array_index_config
        context_get_def js_set_def)

text \<open>
  Claim C1 as it is stated fails: the name \<open>x\<close> is present in the bindings, bound to
  \<^verbatim>\<open>undefined\<close>, and resolving \<^verbatim>\<open>$x\<close> fails with the error for an
  undefined variable.  Such bindings arise in a run: \<^verbatim>\<open>x:(ping)\<close> binds \<open>x\<close> to
  what the action of \<^verbatim>\<open>ping\<close> returns, which is nothing, and the next statement
  fails on \<^verbatim>\<open>$x\<close>.
\<close>

theorem undefined_value_counterexample:
  "''x'' \<in> fst ` set (own_properties \<lparr>own_properties = [(''x'', JUndefined)], prototype = ObjectPrototype\<rparr>)
   \<and> resolveCommandArgs \<lparr>own_properties = [(''x'', JUndefined)], prototype = ObjectPrototype\<rparr>
        \<lparr>name = ''ping'', positionalArgs = [VariableRef ''x''], namedArgs = []\<rparr>
       = Inl (undefined_variable ''x'')
   \<and> executeStatements
        [AssignmentStmt ''x'' ping,
         CommandStmt \<lparr>name = ''ping'', positionalArgs = [VariableRef ''x''], namedArgs = []\<rparr>]
        registry ()
       = (Inl (undefined_variable ''x''), (), [(''ping'', [], [])])"
  by (simp add: resolveCommandArgs_def js_entries_def context_get_def context_set_def js_get_def
      executeStatements_def empty_context_def registry_def ping_def returning_def)

lemma is_digit_digit_char: "d < 10 \<Longrightarrow> is_digit (digit_char d)"
  by (simp add: is_digit_def digit_char_def)

lemma of_char_digit_char: "d < 10 \<Longrightarrow> (of_char (digit_char d) :: nat) = 48 + d"
  by (simp add: digit_char_def)

lemma digits_are_digits: "list_all is_digit (digits m)"
proof (induction m rule: digits.induct)
  case (1 n)
  show ?case
  proof (cases "n < 10")
    case True
    then show ?thesis by (simp add: digits.simps [of n] is_digit_digit_char)
  next
    case False
    with 1 show ?thesis by (simp add: digits.simps [of n] is_digit_digit_char)
  qed
qed

lemma decimal_value_snoc: "decimal_value (k @ [c]) = 10 * decimal_value k + ((of_char c :: nat) - 48)"
  by (simp add: decimal_value_def)

lemma decimal_value_digits: "decimal_value (digits m) = m"
proof (induction m rule: digits.induct)
  case (1 n)
  show ?case
  proof (cases "n < 10")
    case True
    then show ?thesis by (simp add: digits.simps [of n] decimal_value_def of_char_digit_char)
  next
    case False
    with 1 have "decimal_value (digits (n div 10)) = n div 10" by simp
    with False show ?thesis
      by (simp add: digits.simps [of n] decimal_value_snoc of_char_digit_char)
  qed
qed

text \<open>
  Claim C10: a reference to a variable bound to a value that is not a string resolves to
  \<^verbatim>\<open>String\<close> of the value.  A number (a safe integer) gives its decimal text: an
  optional minus sign and the digits whose decimal value is the magnitude; a boolean
  gives \<^verbatim>\<open>true\<close> or \<^verbatim>\<open>false\<close>; a plain object (one that does not define
  \<^verbatim>\<open>toString\<close> itself) gives \<^verbatim>\<open>[object Object]\<close>, whatever its
  properties.
\<close>

theorem String_of_bound_value:
  "(map_of (own_properties ctx) x = Some (JNum n) \<and> \<bar>n\<bar> < 2 ^ 53 \<longrightarrow>
      resolveArgument ctx (VariableRef x) = Inr (number_text n)
      \<and> number_text n = (if n < 0 then CHR ''-'' # digits (nat \<bar>n\<bar>) else digits (nat \<bar>n\<bar>))
      \<and> list_all is_digit (digits (nat \<bar>n\<bar>)) \<and> int (decimal_value (digits (nat \<bar>n\<bar>))) = \<bar>n\<bar>)
   \<and> (map_of (own_properties ctx) x = Some (JBool b) \<longrightarrow>
      resolveArgument ctx (VariableRef x) = Inr (if b then ''true'' else ''false''))
   \<and> (map_of (own_properties ctx) x = Some (JObj fs) \<and> ''toString'' \<notin> fst ` set fs \<longrightarrow>
      resolveArgument ctx (VariableRef x) = Inr ''[object Object]'')"
proof (intro conjI impI)
  assume n: "map_of (own_properties ctx) x = Some (JNum n) \<and> \<bar>n\<bar> < 2 ^ 53"
  then have "context_get ctx x = Found (JNum n)" by (simp add: context_get_def)
  then show "resolveArgument ctx (VariableRef x) = Inr (number_text n)" by simp
  show "number_text n = (if n < 0 then CHR ''-'' # digits (nat \<bar>n\<bar>) else digits (nat \<bar>n\<bar>))"
    by (simp add: number_text_def)
  show "list_all is_digit (digits (nat \<bar>n\<bar>))" by (rule digits_are_digits)
  show "int (decimal_value (digits (nat \<bar>n\<bar>))) = \<bar>n\<bar>" by (simp add: decimal_value_digits)
next
  assume "map_of (own_properties ctx) x = Some (JBool b)"
  then have "context_get ctx x = Found (JBool b)" by (simp add: context_get_def)
  then show "resolveArgument ctx (VariableRef x) = Inr (if b then ''true'' else ''false'')" by simp
next
  assume "map_of (own_properties ctx) x = Some (JObj fs) \<and> ''toString'' \<notin> fst ` set fs"
  then have "context_get ctx x = Found (JObj fs)" and "''toString'' \<notin> fst ` set fs"
    by (simp_all add: context_get_def)
  then show "resolveArgument ctx (VariableRef x) = Inr ''[object Object]''" by simp
qed

lemma digits_42: "digits 42 = ''42''"
  by code_simp

theorem String_of_bound_value_witness:
  "resolveArgument \<lparr>own_properties = [(''n'', JNum 42)], prototype = ObjectPrototype\<rparr>
       (VariableRef ''n'') = Inr ''42''
   \<and> resolveArgument \<lparr>own_properties = [(''b'', JBool True)], prototype = ObjectPrototype\<rparr>
       (VariableRef ''b'') = Inr ''true''
   \<and> resolveArgument
       \<lparr>own_properties = [(''cfg'', JObj [(''env'', JStr ''prod'')])], prototype = ObjectPrototype\<rparr>
       (VariableRef ''cfg'')
       = Inr ''[object Object]''"
  using String_of_bound_value
      [of "\<lparr>own_properties = [(''n'', JNum 42)], prototype = ObjectPrototype\<rparr>" "''n''" 42 True "[]"]
    String_of_bound_value
      [of "\<lparr>own_properties = [(''b'', JBool True)], prototype = ObjectPrototype\<rparr>" "''b''" 0 True "[]"]
    String_of_bound_value
      [of "\<lparr>own_properties = [(''cfg'', JObj [(''env'', JStr ''prod'')])], prototype = ObjectPrototype\<rparr>"
        "''cfg''" 0 True "[(''env'', JStr ''prod'')]"]
  by (simp add: number_text_def digits_42)

section \<open>Properties of the executor\<close>

lemma execute_from_append:
  "execute_from cm (xs @ ys) ctx w calls =
     (case execute_from cm xs ctx w calls of
        (Inr ctx', w', calls') \<Rightarrow> execute_from cm ys ctx' w' calls'
      | (Inl e, w', calls') \<Rightarrow> (Inl e, w', calls'))"
proof (induction xs arbitrary: ctx w calls)
  case Nil
  show ?case by simp
next
  case (Cons x xs)
  show ?case
    by (simp add: Cons.IH split: sum.splits prod.splits property.splits Statement.splits)
qed

lemma execute_from_calls:
  "execute_from cm xs ctx w calls = (Inr ctx', w', calls') \<Longrightarrow>
   length calls' = length calls + length xs"
proof (induction xs arbitrary: ctx w calls)
  case Nil
  then show ?case by simp
next
  case (Cons x xs)
  from Cons.prems show ?case
    by (auto split: sum.splits prod.splits property.splits dest!: Cons.IH)
qed

lemma execute_from_step:
  assumes "resolveCommandArgs ctx (command stmt) = Inr (pos, named)"
    and "js_get cm (name (command stmt)) = Own d"
    and "action d pos named w = (Inl e, w')"
  shows "execute_from cm (stmt # after) ctx w calls
         = (Inl e, w', calls @ [(name (command stmt), pos, named)])"
  using assms by simp

text \<open>
  Claim C3, as the code has it.  When the statements before a statement have run, its
  arguments resolve and its action throws \<open>e\<close>, the run fails with \<open>e\<close> itself, as the
  action threw it: nothing records which command failed or where it stood.  The actions
  invoked are those of the statements before and the failing one, one for each: no
  statement after it is executed; and no binding context is returned.
\<close>

theorem failing_action_aborts:
  assumes "executeStatements before cm w0 = (Inr ctx, w, calls)"
    and "resolveCommandArgs ctx (command stmt) = Inr (pos, named)"
    and "js_get cm (name (command stmt)) = Own d"
    and "action d pos named w = (Inl e, w')"
  shows "executeStatements (before @ stmt # after) cm w0
           = (Inl e, w', calls @ [(name (command stmt), pos, named)])
         \<and> length calls = length before"
proof
  from assms(1) have b: "execute_from cm before empty_context w0 [] = (Inr ctx, w, calls)"
    by (simp add: executeStatements_def)
  from execute_from_step [OF assms(2-4)] b
  show "executeStatements (before @ stmt # after) cm w0
           = (Inl e, w', calls @ [(name (command stmt), pos, named)])"
    by (simp add: executeStatements_def execute_from_append)
  from execute_from_calls [OF b] show "length calls = length before" by simp
qed

lemma ping_runs:
  "executeStatements [CommandStmt ping] registry () = (Inr empty_context, (), [(''ping'', [], [])])"
  by (simp add: executeStatements_def registry_def ping_def returning_def resolveCommandArgs_def
      js_entries_def js_get_def)

lemma deploy_resolves:
  "resolveCommandArgs empty_context (command (CommandStmt deploy)) = Inr ([''prod''], [])"
  by (simp add: deploy_def resolveCommandArgs_def js_entries_def)

lemma deploy_registered: "js_get registry (name (command (CommandStmt deploy))) = Own (throwing (Error ''boom''))"
  by (simp add: registry_def deploy_def js_get_def)

lemma deploy_throws: "action (throwing (Error ''boom'')) [''prod''] [] () = (Inl (Error ''boom''), ())"
  by (simp add: throwing_def)

theorem failing_action_aborts_witness:
  "executeStatements [CommandStmt ping, CommandStmt deploy, CommandStmt ping] registry ()
     = (Inl (Error ''boom''), (), [(''ping'', [], []), (''deploy'', [''prod''], [])])"
  using failing_action_aborts [OF ping_runs deploy_resolves deploy_registered deploy_throws, of "[CommandStmt ping]"]
  by (simp add: deploy_def)

text \<open>
  Claim C3 as it is stated fails: the error of the run is the error of the action and no
  more.  The command \<^verbatim>\<open>deploy\<close> throws \<^verbatim>\<open>boom\<close>; first or second in the
  sequence, the run fails with \<^verbatim>\<open>boom\<close>, which does not name the command.
\<close>

theorem unwrapped_error_counterexample:
  "fst (executeStatements [CommandStmt deploy] registry ()) = Inl (Error ''boom'')
   \<and> fst (executeStatements [CommandStmt ping, CommandStmt deploy] registry ()) = Inl (Error ''boom'')
   \<and> \<not> sublist ''deploy'' ''boom''"
proof (intro conjI)
  show "fst (executeStatements [CommandStmt deploy] registry ()) = Inl (Error ''boom'')"
    by (simp add: executeStatements_def registry_def deploy_def throwing_def
        resolveCommandArgs_def js_entries_def js_get_def)
  show "fst (executeStatements [CommandStmt ping, CommandStmt deploy] registry ()) = Inl (Error ''boom'')"
    by (simp add: executeStatements_def registry_def deploy_def ping_def throwing_def returning_def
        resolveCommandArgs_def js_entries_def js_get_def)
  show "\<not> sublist ''deploy'' ''boom''"
    by code_simp
qed



lemma not_index_val: "\<not> is_array_index ''val''"
  by (simp add: is_array_index_def is_digit_def)



text \<open>
  An assignment to \<^verbatim>\<open>__proto__\<close> binds nothing and replaces the prototype of
  the context when the action returns an object: after \<^verbatim>\<open>__proto__:(A)\<close>, with
  \<open>A\<close> returning an object with the property \<^verbatim>\<open>env\<close>, the name
  \<^verbatim>\<open>env\<close> is read through the prototype, \<open>B\<close> is invoked with it, and the
  context that is returned has no property of its own.
\<close>

lemma tokenize_proto_assignment: "tokenize ''__proto__:(A) (B val:$env)''
    = Inr [AssignmentStmt ''__proto__'' \<lparr>name = ''A'', positionalArgs = [], namedArgs = []\<rparr>,
           CommandStmt \<lparr>name = ''B'', positionalArgs = [], namedArgs = [(''val'', VariableRef ''env'')]\<rparr>]"
  by code_simp

lemma proto_assignment_replaces_prototype:
  "run [(''A'', returning (JObj [(''env'', JStr ''prod'')]) None), (''B'', use_value)]
       [''__proto__:(A) (B val:$env)''] ()
   = (Inr \<lparr>own_properties = [], prototype = PlainObject [(''env'', JStr ''prod'')]\<rparr>, (),
      [(''A'', [], []), (''B'', [], [(''val'', ''prod'')])])"
  by (simp add: run_def tokenize_proto_assignment validateStatements_def executeStatements_def
      returning_def use_value_def resolveCommandArgs_def js_entries_def not_index_val
      js_get_def js_set_def context_get_def context_set_def empty_context_def)

section \<open>Properties of validation and of a run\<close>





lemma unknown_commands_reported:
  assumes "\<And>s. s \<in> set statements \<Longrightarrow> js_get cm (name (command s)) = Missing"
  shows "validateStatements statements cm = map (\<lambda>s. unknown_command (name (command s))) statements"
  using assms by (induction statements) (simp_all add: validateStatements_def)

lemma tokenize_inherited: "tokenize ''(constructor) (toString)''
    = Inr [CommandStmt \<lparr>name = ''constructor'', positionalArgs = [], namedArgs = []\<rparr>,
           CommandStmt \<lparr>name = ''toString'', positionalArgs = [], namedArgs = []\<rparr>]"
  by code_simp

text \<open>
  Claim C5 fails on the code.  With nothing registered, the two statements of
  \<^verbatim>\<open>(constructor) (toString)\<close> name two distinct commands that are absent from
  the registry, and validation reports no error: \<^verbatim>\<open>commandMap[name]\<close> finds the
  members of \<^verbatim>\<open>Object.prototype\<close>.  The run goes on to execution and ends in a
  \<^verbatim>\<open>TypeError\<close>.  (For names that the read does not find,
  \<open>unknown_commands_reported\<close> is what the claim says.)
\<close>

theorem inherited_names_pass_validation:
  "tokenize ''(constructor) (toString)''
     = Inr [CommandStmt \<lparr>name = ''constructor'', positionalArgs = [], namedArgs = []\<rparr>,
            CommandStmt \<lparr>name = ''toString'', positionalArgs = [], namedArgs = []\<rparr>]
   \<and> validateStatements
       [CommandStmt \<lparr>name = ''constructor'', positionalArgs = [], namedArgs = []\<rparr>,
        CommandStmt \<lparr>name = ''toString'', positionalArgs = [], namedArgs = []\<rparr>]
       ([] :: unit CommandDefinition dict) = []
   \<and> run ([] :: unit CommandDefinition dict) [''(constructor) (toString)''] () = (Inl TypeError, (), [])"
  by (simp add: tokenize_inherited run_def validateStatements_def executeStatements_def
      js_get_def Object_prototype_keys_def resolveCommandArgs_def js_entries_def)

section \<open>Properties of the grammar\<close>

lemma many1_append:
  assumes "a \<noteq> []" and "list_all p a" and "\<not> p c"
  shows "many1 p (a @ c # t) = Some (a, c # t)"
proof -
  from assms(2) have all: "\<forall>x\<in>set a. p x" by (simp add: list_all_iff)
  with assms(3) have "takeWhile p (a @ c # t) = a" and "dropWhile p (a @ c # t) = c # t"
    by simp_all
  with assms(1) show ?thesis by (simp add: many1_def)
qed

lemma colon_not_identifier_char: "\<not> is_identifier_char CHR '':''"
  by (simp add: is_identifier_char_def in_range_def)

lemma NamedArgument_identifier_colon:
  assumes "a \<noteq> []" and "list_all is_identifier_char a" and "Value t = Some (v, r)"
  shows "NamedArgument (a @ CHR '':'' # t) = Some (Named a v, r)"
  using many1_append [OF assms(1,2) colon_not_identifier_char, of t] assms(3)
  by (simp add: NamedArgument_def Identifier_def)

lemma many1_chars: "many1 p s = Some (x, r) \<Longrightarrow> list_all p x"
  by (auto simp: many1_def list_all_iff split: if_splits dest: set_takeWhileD)

lemma QuotedString_starts: "QuotedString s = Some (x, r) \<Longrightarrow> s \<noteq> [] \<and> hd s = dquote"
  by (cases s) (auto split: if_splits)

lemma unquoted_positional_no_colon:
  assumes "Argument s = Some (Positional (Literal x), r)" and "hd s \<noteq> dquote"
  shows "CHR '':'' \<notin> set x"
proof -
  from assms(1) have "Value s = Some (Literal x, r)"
    by (auto simp: Argument_def PositionalArgument_def NamedArgument_def
             split: option.splits list.splits if_splits)
  then have "Literal_rule s = Some (Literal x, r)"
    by (cases s) (auto simp: Value_def split: option.splits if_splits)
  with assms(2) have "UnquotedString s = Some (x, r)"
    by (auto simp: Literal_rule_def split: option.splits dest: QuotedString_starts)
  then have "list_all is_unquoted_char x"
    unfolding UnquotedString_def by (rule many1_chars)
  then show ?thesis by (auto simp: list_all_iff is_unquoted_char_def)
qed

lemma tokenize_cmd_a_b: "tokenize ''(cmd a:b)''
    = Inr [CommandStmt \<lparr>name = ''cmd'', positionalArgs = [], namedArgs = [(''a'', Literal ''b'')]\<rparr>]"
  by code_simp

text \<open>
  Claim C7: where an identifier, a colon and text from which the rule
  \<^verbatim>\<open>Value\<close> takes a value stand, the rule \<^verbatim>\<open>Argument\<close> gives the named
  argument of that name and value, and leaves what \<^verbatim>\<open>Value\<close> leaves.  A
  positional argument that is an unquoted literal never has a colon in it.
  \<^verbatim>\<open>(cmd a:b)\<close> parses to the command with the named argument \<open>a\<close> of value \<open>b\<close>.
\<close>

theorem named_before_positional:
  "(a \<noteq> [] \<and> list_all is_identifier_char a \<and> Value t = Some (v, r) \<longrightarrow>
      Argument (a @ CHR '':'' # t) = Some (Named a v, r))
   \<and> (Argument s = Some (Positional (Literal x), r') \<and> hd s \<noteq> dquote \<longrightarrow> CHR '':'' \<notin> set x)
   \<and> tokenize ''(cmd a:b)''
      = Inr [CommandStmt \<lparr>name = ''cmd'', positionalArgs = [], namedArgs = [(''a'', Literal ''b'')]\<rparr>]"
proof (intro conjI impI)
  assume "a \<noteq> [] \<and> list_all is_identifier_char a \<and> Value t = Some (v, r)"
  then show "Argument (a @ CHR '':'' # t) = Some (Named a v, r)"
    using NamedArgument_identifier_colon [of a t v r] by (simp add: Argument_def)
next
  assume "Argument s = Some (Positional (Literal x), r') \<and> hd s \<noteq> dquote"
  then show "CHR '':'' \<notin> set x"
    using unquoted_positional_no_colon [of s x r'] by blast
qed (rule tokenize_cmd_a_b)

lemma Value_b: "Value ''b)'' = Some (Literal ''b'', '')'')"
  by code_simp

lemma Argument_b: "Argument ''b)'' = Some (Positional (Literal ''b''), '')'')"
  by code_simp

theorem named_before_positional_witness:
  "Argument ''a:b)'' = Some (Named ''a'' (Literal ''b''), '')'') \<and> CHR '':'' \<notin> set ''b''"
  using named_before_positional [of "''a''" "''b)''" "Literal ''b''" "'')''" "''b)''" "''b''" "'')''"]
  by (simp add: Value_b Argument_b is_identifier_char_def in_range_def)

lemma quoted_items_plain_char:
  "c \<noteq> dquote \<Longrightarrow> c \<noteq> backslash \<Longrightarrow>
   quoted_items (c # t) = (Plain c # fst (quoted_items t), snd (quoted_items t))"
  by (cases t) (simp_all split: prod.splits)

lemma quoted_items_escape:
  "quoted_items (backslash # c # t) = (Escaped backslash c # fst (quoted_items t), snd (quoted_items t))"
  by (simp split: prod.splits)

lemma quoted_items_dquote: "quoted_items (dquote # t) = ([], dquote # t)"
  by (cases t) simp_all

declare quoted_items.simps [simp del]

lemma quoted_items_plain:
  "plain s \<Longrightarrow> quoted_items (s @ t) = (map Plain s @ fst (quoted_items t), snd (quoted_items t))"
  by (induction s) (simp_all add: plain_def quoted_items_plain_char)

lemma QuotedString_items:
  "QuotedString (dquote # t) =
     (case snd (quoted_items t) of
        q # r \<Rightarrow> if q = dquote then Some (map unescape (fst (quoted_items t)), r) else None
      | [] \<Rightarrow> None)"
  by (simp split: prod.splits list.splits)

lemma QuotedString_plain:
  "plain s \<Longrightarrow> QuotedString (dquote # s @ dquote # r) = Some (s, r)"
  by (simp add: QuotedString_items quoted_items_plain quoted_items_dquote comp_def)

lemma QuotedString_escape:
  "plain pre \<Longrightarrow>
   QuotedString (dquote # pre @ backslash # c # t) =
     (case QuotedString (dquote # t) of Some (x, r) \<Rightarrow> Some (pre @ c # x, r) | None \<Rightarrow> None)"
proof -
  assume pre: "plain pre"
  obtain items rest where q: "quoted_items t = (items, rest)" by (cases "quoted_items t")
  with pre show ?thesis
    by (cases rest)
       (simp_all add: QuotedString_items quoted_items_plain quoted_items_escape comp_def)
qed

lemma dquote_not_identifier_char: "\<not> is_identifier_char dquote"
  by (simp add: is_identifier_char_def in_range_def)

lemma Argument_quoted:
  assumes "plain s"
  shows "Argument (dquote # s @ dquote # r) = Some (Positional (Literal s), r)"
proof -
  have "Identifier (dquote # s @ dquote # r) = None"
    by (simp add: Identifier_def many1_def dquote_not_identifier_char)
  then have "NamedArgument (dquote # s @ dquote # r) = None"
    by (simp add: NamedArgument_def)
  moreover have "Value (dquote # s @ dquote # r) = Some (Literal s, r)"
    using QuotedString_plain [OF assms, of r] by (simp add: Value_def Literal_rule_def)
  ultimately show ?thesis by (simp add: Argument_def PositionalArgument_def)
qed

lemma Comment_other: "c \<noteq> CHR ''/'' \<Longrightarrow> Comment (c # t) = None"
  by (cases t) simp_all

lemma Statement_Nil: "Statement [] = None"
  by (simp add: Statement_def Assignment_def ExecutableCommand_def Identifier_def many1_def)

lemma Statements_Nil: "Statements [] = ([], [])"
  by (simp add: Statements.simps [of "[]"] Statement_Nil)

lemma Arguments_close: "Arguments '')'' = ([], '')'')"
  by code_simp

lemma tokenize_quoted:
  assumes "plain s"
  shows "tokenize (''(cmd '' @ dquote # s @ dquote # '')'')
         = Inr [CommandStmt \<lparr>name = ''cmd'', positionalArgs = [Literal s], namedArgs = []\<rparr>]"
proof -
  let ?arg = "dquote # s @ dquote # '')''"
  have name: "CommandName (''cmd '' @ ?arg) = Some (''cmd'', CHR '' '' # ?arg)"
    by (simp add: CommandName_def many1_def is_command_name_char_def in_range_def)
  have "ws (CHR '' '' # ?arg) = ?arg"
    by (simp add: is_space_def Comment_other)
  then have "Arguments (CHR '' '' # ?arg) = ([Positional (Literal s)], '')'')"
    using Argument_quoted [OF assms, of "'')''"]
    by (subst Arguments.simps) (simp add: Arguments_close)
  with name have "Command (''cmd '' @ ?arg)
      = Some (\<lparr>name = ''cmd'', positionalArgs = [Literal s], namedArgs = []\<rparr>, '')'')"
    by (simp add: Command_def buildCommand_def)
  then have "CommandExpression (''(cmd '' @ ?arg)
      = Some (\<lparr>name = ''cmd'', positionalArgs = [Literal s], namedArgs = []\<rparr>, [])"
    by (simp add: is_space_def Comment_other)
  moreover have "Assignment (''(cmd '' @ ?arg) = None"
    by (simp add: Assignment_def Identifier_def many1_def is_identifier_char_def in_range_def)
  ultimately have "Statement (''(cmd '' @ ?arg)
      = Some (CommandStmt \<lparr>name = ''cmd'', positionalArgs = [Literal s], namedArgs = []\<rparr>, [])"
    by (simp add: Statement_def ExecutableCommand_def)
  then have "Statements (''(cmd '' @ ?arg)
      = ([CommandStmt \<lparr>name = ''cmd'', positionalArgs = [Literal s], namedArgs = []\<rparr>], [])"
    by (subst Statements.simps) (simp add: Statements_Nil)
  moreover have "ws (''(cmd '' @ ?arg) = ''(cmd '' @ ?arg"
    by (simp add: is_space_def Comment_other)
  ultimately show ?thesis
    by (simp add: tokenize_def Program_def)
qed

text \<open>
  Claim C8: a plain string between double quotes is a positional argument whose value is
  the string itself, also as the argument of a whole command line.  After a plain
  beginning of a quoted string, a backslash and any character \<open>c\<close> give the character
  \<open>c\<close>, and what follows is decoded as it would be at the beginning of a quoted string.
\<close>

theorem quoting_invariant:
  "(plain s \<longrightarrow>
      Argument (dquote # s @ dquote # r) = Some (Positional (Literal s), r)
      \<and> tokenize (''(cmd '' @ dquote # s @ dquote # '')'')
        = Inr [CommandStmt \<lparr>name = ''cmd'', positionalArgs = [Literal s], namedArgs = []\<rparr>])
   \<and> (plain pre \<longrightarrow>
      QuotedString (dquote # pre @ backslash # c # t) =
        (case QuotedString (dquote # t) of Some (x, r) \<Rightarrow> Some (pre @ c # x, r) | None \<Rightarrow> None))"
  using Argument_quoted [of s r] tokenize_quoted [of s] QuotedString_escape [of pre c t]
  by blast

lemma plain_ab: "plain ''a b''"
  by (simp add: plain_def)

lemma QuotedString_tail: "QuotedString (dquote # ''d'' @ [dquote]) = Some (''d'', [])"
  by code_simp

theorem quoting_invariant_witness:
  "Argument (dquote # ''a b'' @ [dquote]) = Some (Positional (Literal ''a b''), [])
   \<and> QuotedString (dquote # ''a b'' @ backslash # dquote # ''d'' @ [dquote])
     = Some (''a b'' @ dquote # ''d'', [])
   \<and> QuotedString (dquote # ''a b'' @ backslash # CHR ''n'' # ''d'' @ [dquote]) = Some (''a bnd'', [])"
  using quoting_invariant [of "''a b''" "[]" "''a b''" dquote "''d'' @ [dquote]"]
    quoting_invariant [of "''a b''" "[]" "''a b''" "CHR ''n''" "''d'' @ [dquote]"]
    plain_ab QuotedString_tail
  by simp

abbreviation (input) to_end_of_line :: "string \<Rightarrow> string" where
  "to_end_of_line \<equiv> dropWhile (\<lambda>x. x \<noteq> newline \<and> x \<noteq> carriage_return)"

lemma ws_comment: "ws (CHR ''/'' # CHR ''/'' # t) = ws (to_end_of_line t)"
  by (simp add: is_space_def)

lemma blank_pieces_skipped:
  "list_all blank_piece ps \<Longrightarrow>
   ws (concat ps) = [] \<and> ws (to_end_of_line (concat ps)) = []"
proof (induction ps)
  case Nil
  show ?case by simp
next
  case (Cons p ps)
  then have ih: "ws (concat ps) = []" "ws (to_end_of_line (concat ps)) = []"
    and p: "blank_piece p" by simp_all
  from p consider (space) c where "p = [c]" "is_space c"
    | (continuation) "p = [backslash, newline]"
    | (comment) t where "p = CHR ''/'' # CHR ''/'' # t" "newline \<notin> set t" "carriage_return \<notin> set t"
  proof -
    assume r: "\<And>c. p = [c] \<Longrightarrow> is_space c \<Longrightarrow> thesis" "p = [backslash, newline] \<Longrightarrow> thesis"
      "\<And>t. p = CHR ''/'' # CHR ''/'' # t \<Longrightarrow> newline \<notin> set t \<Longrightarrow> carriage_return \<notin> set t \<Longrightarrow> thesis"
    from p show thesis unfolding blank_piece_def
    proof (elim disjE conjE)
      assume "length p = 1" "is_space (hd p)"
      then show thesis by (cases p) (auto intro: r(1))
    next
      assume "p = [backslash, newline]"
      then show thesis by (rule r(2))
    next
      assume t: "take 2 p = ''//''" and n: "newline \<notin> set p" "carriage_return \<notin> set p"
      from t obtain t' where "p = CHR ''/'' # CHR ''/'' # t'"
        by (cases p; cases "tl p") auto
      with n show thesis by (auto intro: r(3))
    qed
  qed
  then show ?case
  proof cases
    case space
    with ih show ?thesis by (auto simp: is_space_def)
  next
    case continuation
    with ih show ?thesis by (simp add: is_space_def)
  next
    case comment
    then have "to_end_of_line (t @ concat ps) = to_end_of_line (concat ps)"
      by (auto simp: dropWhile_append)
    with comment ih show ?thesis by (simp add: is_space_def)
  qed
qed

text \<open>
  Claim C9: a text made of pieces of blank input only (none at all for the empty text)
  parses to the empty list of statements.
\<close>

theorem blank_input_parses_empty:
  "list_all blank_piece ps \<Longrightarrow> tokenize (concat ps) = Inr []"
  using blank_pieces_skipped [of ps]
  by (simp add: tokenize_def Program_def Statements_Nil)

lemma blank_pieces_example:
  "list_all blank_piece ['' '', '' '', '' '', ''// just a comment'', [newline]]"
  by (simp add: blank_piece_def is_space_def)

theorem blank_input_parses_empty_witness:
  "tokenize (''   // just a comment'' @ [newline]) = Inr [] \<and> tokenize '''' = Inr []"
  using blank_input_parses_empty [OF blank_pieces_example] blank_input_parses_empty [of "[]"]
  by simp

lemma collect_keys_distinct:
  "distinct (map fst (namedArgs c)) \<Longrightarrow> distinct (map fst (namedArgs (foldl collect c args)))"
proof (induction args arbitrary: c)
  case Nil
  then show ?case by simp
next
  case (Cons a args)
  from Cons.prems have "distinct (map fst (namedArgs (collect c a)))"
    by (cases a) (simp_all add: js_set_distinct)
  from Cons.IH [OF this] show ?case by simp
qed

lemma collect_last_wins:
  "k \<noteq> ''__proto__'' \<Longrightarrow>
   map_of (namedArgs (foldl collect c args)) k =
     (if named_values k args = [] then map_of (namedArgs c) k else Some (last (named_values k args)))"
proof (induction args arbitrary: c)
  case Nil
  show ?case by simp
next
  case (Cons a args)
  show ?case
  proof (cases a)
    case (Positional v)
    with Cons show ?thesis by simp
  next
    case (Named k' v)
    with Cons show ?thesis by (simp add: map_of_js_set)
  qed
qed

lemma collect_positional:
  "positionalArgs (foldl collect c args) =
     positionalArgs c @ concat (map (\<lambda>a. case a of Positional v \<Rightarrow> [v] | Named k v \<Rightarrow> []) args)"
proof (induction args arbitrary: c)
  case Nil
  show ?case by simp
next
  case (Cons a args)
  show ?case by (cases a) (simp_all add: Cons.IH)
qed

lemma buildCommand_last_wins:
  "distinct (map fst (namedArgs (buildCommand n args)))
   \<and> (k \<noteq> ''__proto__'' \<longrightarrow>
       map_of (namedArgs (buildCommand n args)) k =
         (if named_values k args = [] then None else Some (last (named_values k args))))"
  by (simp add: buildCommand_def collect_keys_distinct collect_last_wins)

lemma tokenize_repeated_key: "tokenize ''(cmd a:1 a:2)''
    = Inr [CommandStmt \<lparr>name = ''cmd'', positionalArgs = [], namedArgs = [(''a'', Literal ''2'')]\<rparr>]"
  by code_simp

text \<open>
  Claim C6 fails on the code for one key.  In \<^verbatim>\<open>(cmd __proto__:1 __proto__:2)\<close>
  the key \<^verbatim>\<open>__proto__\<close> is repeated; the text is accepted, and the command has no
  named argument at all: neither occurrence is kept.  (For every other key
  \<open>buildCommand_last_wins\<close> is what the claim says, and the keys are distinct always.)
\<close>

theorem proto_key_dropped:
  "tokenize ''(cmd __proto__:1 __proto__:2)''
     = Inr [CommandStmt \<lparr>name = ''cmd'', positionalArgs = [], namedArgs = []\<rparr>]"
  by code_simp

end
